theory Spec2Isabelle
  imports Main "HOL-Library.Sublist"
begin

section \<open>The converter script \<^verbatim>\<open>dbn_to_parquet.py\<close>\<close>

text \<open>
  The whole program is one function:
  \<^verbatim>\<open>
  def main():
      if len(sys.argv) < 2:
          sys.stderr.write("Usage: dbn_to_parquet.py <filename>\n")
          sys.exit(1)
      for filename in sys.argv[1:]:
          sys.stderr.write("Processing " + filename + "\n")
          dbn_data = db.DBNStore.from_file(filename)
          pqfilename = filename + ".parquet"
          dbn_data.to_parquet(pqfilename)
          sys.stderr.write("Created " + pqfilename + "\n")
  \<close>
  Its effects are made explicit: what the process does, in order, is a list of events,
  and the files it leaves behind are a map from paths to contents.
\<close>

subsection \<open>The world the script acts on\<close>

type_synonym 'c filesystem = "string \<rightharpoonup> 'c"

text \<open>
  One event per effect of the script: a write to standard error with the text written,
  a call of \<^verbatim>\<open>DBNStore.from_file\<close> with its single argument, a call of
  \<^verbatim>\<open>to_parquet\<close> with its single argument.
\<close>

datatype event = Stderr string | FromFile string | ToParquet string

record 'c world =
  files :: "'c filesystem"
  trace :: "event list"

text \<open>
  The two library calls are parameters of the model. \<open>'s\<close> is the type of the decoded
  store, \<open>'e\<close> the type of the exceptions the library raises, \<open>'c\<close> the type of file
  contents. Both calls see the filesystem of the moment they are made at.

  Modelled from the spec: the library \<^verbatim>\<open>databento\<close> is not part of the repository. Its
  contract is the one of the spec's external interfaces: \<^verbatim>\<open>from_file\<close> returns a
  store or fails; \<^verbatim>\<open>to_parquet\<close> writes the output file at the path it is given (in
  the result \<open>Inr c\<close>, \<open>c\<close> is the content written there) or fails, writing nothing.
\<close>

record ('c, 'e, 's) databento =
  from_file :: "'c filesystem \<Rightarrow> string \<Rightarrow> 'e + 's"
  to_parquet :: "'s \<Rightarrow> string \<Rightarrow> 'c filesystem \<Rightarrow> 'e + 'c"

text \<open>
  How \<^verbatim>\<open>main\<close> ends: it returns, it leaves through \<^verbatim>\<open>sys.exit(n)\<close>, or an
  exception raised by the library passes through it (the script has no \<^verbatim>\<open>try\<close>).
  The interpreter turns a normal return into exit status 0, \<^verbatim>\<open>sys.exit(n)\<close> into
  status \<open>n\<close>, and an exception nobody caught into status 1.
\<close>

datatype 'e outcome = Returned | SysExit int | Raised 'e

fun exit_status :: "'e outcome \<Rightarrow> int" where
  "exit_status Returned = 0"
| "exit_status (SysExit n) = n"
| "exit_status (Raised e) = 1"

subsection \<open>The script\<close>

definition stderr_write :: "string \<Rightarrow> 'c world \<Rightarrow> 'c world" where
  "stderr_write s w = w\<lparr>trace := trace w @ [Stderr s]\<rparr>"

definition call_from_file ::
  "('c, 'e, 's) databento \<Rightarrow> string \<Rightarrow> 'c world \<Rightarrow> ('e + 's) \<times> 'c world" where
  "call_from_file lib filename w =
     (from_file lib (files w) filename, w\<lparr>trace := trace w @ [FromFile filename]\<rparr>)"

definition call_to_parquet ::
  "('c, 'e, 's) databento \<Rightarrow> 's \<Rightarrow> string \<Rightarrow> 'c world \<Rightarrow> ('e + unit) \<times> 'c world" where
  "call_to_parquet lib dbn_data pqfilename w =
     (case to_parquet lib dbn_data pqfilename (files w) of
        Inl e \<Rightarrow> (Inl e, w\<lparr>trace := trace w @ [ToParquet pqfilename]\<rparr>)
      | Inr c \<Rightarrow> (Inr (), w\<lparr>files := (files w)(pqfilename \<mapsto> c),
                             trace := trace w @ [ToParquet pqfilename]\<rparr>))"

text \<open>The \<^verbatim>\<open>for\<close> loop of \<^verbatim>\<open>main\<close>, over the filenames still to be processed.\<close>

fun main_loop ::
  "('c, 'e, 's) databento \<Rightarrow> string list \<Rightarrow> 'c world \<Rightarrow> 'c world \<times> 'e outcome" where
  "main_loop lib [] w = (w, Returned)"
| "main_loop lib (filename # rest) w =
     (let w1 = stderr_write (''Processing '' @ filename @ [CHR 0x0A]) w in
      case call_from_file lib filename w1 of
        (Inl e, w2) \<Rightarrow> (w2, Raised e)
      | (Inr dbn_data, w2) \<Rightarrow>
          (let pqfilename = filename @ ''.parquet'' in
           case call_to_parquet lib dbn_data pqfilename w2 of
             (Inl e, w3) \<Rightarrow> (w3, Raised e)
           | (Inr u, w3) \<Rightarrow>
               main_loop lib rest (stderr_write (''Created '' @ pqfilename @ [CHR 0x0A]) w3)))"

text \<open>\<open>argv\<close> is \<^verbatim>\<open>sys.argv\<close>: the program name, then the filenames.\<close>

definition main ::
  "('c, 'e, 's) databento \<Rightarrow> string list \<Rightarrow> 'c world \<Rightarrow> 'c world \<times> 'e outcome" where
  "main lib argv w =
     (if length argv < 2
      then (stderr_write (''Usage: dbn_to_parquet.py <filename>'' @ [CHR 0x0A]) w, SysExit 1)
      else main_loop lib (drop 1 argv) w)"

text \<open>
  A run of the script as a process: \<^verbatim>\<open>main()\<close> is called once, nothing has happened
  before, and the filesystem is the one the process finds.
\<close>

definition script ::
  "('c, 'e, 's) databento \<Rightarrow> string list \<Rightarrow> 'c filesystem \<Rightarrow> 'c world \<times> 'e outcome" where
  "script lib argv fs = main lib argv \<lparr>files = fs, trace = []\<rparr>"

subsection \<open>Reading a trace\<close>

fun stderr_of :: "event list \<Rightarrow> string list" where
  "stderr_of [] = []"
| "stderr_of (Stderr s # evs) = s # stderr_of evs"
| "stderr_of (ev # evs) = stderr_of evs"

fun loads_of :: "event list \<Rightarrow> string list" where
  "loads_of [] = []"
| "loads_of (FromFile p # evs) = p # loads_of evs"
| "loads_of (ev # evs) = loads_of evs"

fun exports_of :: "event list \<Rightarrow> string list" where
  "exports_of [] = []"
| "exports_of (ToParquet p # evs) = p # exports_of evs"
| "exports_of (ev # evs) = exports_of evs"

subsection \<open>What a run is expected to do\<close>

text \<open>
  The events of one complete conversion of the file \<open>f\<close>, in the order of the loop body.
\<close>

definition steps :: "string \<Rightarrow> event list" where
  "steps f = [Stderr (''Processing '' @ f @ [CHR 0x0A]), FromFile f,
              ToParquet (f @ ''.parquet''), Stderr (''Created '' @ f @ ''.parquet'' @ [CHR 0x0A])]"

text \<open>
  The two progress lines of one converted file, as written to standard error.
\<close>

definition progress :: "string \<Rightarrow> string list" where
  "progress f = [''Processing '' @ f @ [CHR 0x0A], ''Created '' @ f @ ''.parquet'' @ [CHR 0x0A]]"

text \<open>
  A file converts in a filesystem when it loads there and the store exports to its
  output path; \<open>convert_one\<close> is the content written, or the failure of the call that
  failed. \<open>converted\<close> is the longest prefix of the filenames that convert one after the
  other, each in the filesystem its predecessors leave, and \<open>fs_after\<close> is the
  filesystem they leave. \<open>failed_steps\<close> are the events of a conversion that fails, up to
  and including the failing call.
\<close>

definition convert_one :: "('c, 'e, 's) databento \<Rightarrow> 'c filesystem \<Rightarrow> string \<Rightarrow> 'e + 'c" where
  "convert_one lib fs f =
     (case from_file lib fs f of Inl e \<Rightarrow> Inl e | Inr s \<Rightarrow> to_parquet lib s (f @ ''.parquet'') fs)"

fun converted :: "('c, 'e, 's) databento \<Rightarrow> 'c filesystem \<Rightarrow> string list \<Rightarrow> string list" where
  "converted lib fs [] = []"
| "converted lib fs (f # fnames) =
     (case convert_one lib fs f of
        Inl e \<Rightarrow> []
      | Inr c \<Rightarrow> f # converted lib (fs(f @ ''.parquet'' \<mapsto> c)) fnames)"

fun fs_after :: "('c, 'e, 's) databento \<Rightarrow> 'c filesystem \<Rightarrow> string list \<Rightarrow> 'c filesystem" where
  "fs_after lib fs [] = fs"
| "fs_after lib fs (f # fnames) =
     (case convert_one lib fs f of
        Inl e \<Rightarrow> fs
      | Inr c \<Rightarrow> fs_after lib (fs(f @ ''.parquet'' \<mapsto> c)) fnames)"

definition failed_steps :: "('c, 'e, 's) databento \<Rightarrow> 'c filesystem \<Rightarrow> string \<Rightarrow> event list" where
  "failed_steps lib fs f =
     (case from_file lib fs f of Inl e \<Rightarrow> take 2 (steps f) | Inr s \<Rightarrow> take 3 (steps f))"

text \<open>
  Two ways for the library to be deterministic. It is path-determined when neither
  call's answer depends on the filesystem at all. It is deterministic when the load
  depends on the filesystem through the content of the file it is given only, and the
  export's answer does not depend on what its output path held before.
\<close>

definition path_determined :: "('c, 'e, 's) databento \<Rightarrow> bool" where
  "path_determined lib \<longleftrightarrow>
     (\<forall>fs fs' p. from_file lib fs p = from_file lib fs' p) \<and>
     (\<forall>s p fs fs'. to_parquet lib s p fs = to_parquet lib s p fs')"

definition deterministic :: "('c, 'e, 's) databento \<Rightarrow> bool" where
  "deterministic lib \<longleftrightarrow>
     (\<forall>fs fs' p. fs p = fs' p \<longrightarrow> from_file lib fs p = from_file lib fs' p) \<and>
     (\<forall>s p fs fs'. (\<forall>q. q \<noteq> p \<longrightarrow> fs q = fs' q) \<longrightarrow>
        to_parquet lib s p fs = to_parquet lib s p fs')"

subsection \<open>A small library instance for concrete runs\<close>

text \<open>
  File contents, stores and exceptions are strings. A file decodes when it exists and
  starts with \<open>DBN\<close>; the export writes the records behind a \<open>PAR1\<close> header.
\<close>

definition example_lib :: "(string, string, string) databento" where
  "example_lib =
     \<lparr>from_file = (\<lambda>fs p. case fs p of
          None \<Rightarrow> Inl (''FileNotFoundError: '' @ p)
        | Some c \<Rightarrow> if take 3 c = ''DBN'' then Inr (drop 3 c) else Inl (''invalid DBN: '' @ p)),
      to_parquet = (\<lambda>s p fs. Inr (''PAR1'' @ s))\<rparr>"

definition example_fs :: "string filesystem" where
  "example_fs = [''a.bin'' \<mapsto> ''DBNaa'', ''b.bin'' \<mapsto> ''DBNbb'', ''bad.bin'' \<mapsto> ''junk!'',
                 ''c.bin'' \<mapsto> ''DBNcc'']"

section \<open>Properties of the loop\<close>

lemma main_loop_step:
  "convert_one lib (files w) f = Inr c \<Longrightarrow>
   main_loop lib (f # rest) w =
   main_loop lib rest (w\<lparr>files := (files w)(f @ ''.parquet'' \<mapsto> c), trace := trace w @ steps f\<rparr>)"
  by (auto simp: convert_one_def steps_def stderr_write_def call_from_file_def
      call_to_parquet_def Let_def split: sum.splits)

lemma main_loop_converted:
  "converted lib (files w) ok = ok \<Longrightarrow>
   main_loop lib (ok @ rest) w =
   main_loop lib rest (w\<lparr>files := fs_after lib (files w) ok,
                          trace := trace w @ concat (map steps ok)\<rparr>)"
proof (induction ok arbitrary: w)
  case Nil
  show ?case by simp
next
  case (Cons f ok)
  from Cons.prems obtain c where c: "convert_one lib (files w) f = Inr c"
    and ok: "converted lib ((files w)(f @ ''.parquet'' \<mapsto> c)) ok = ok"
    by (auto split: sum.splits)
  let ?w = "w\<lparr>files := (files w)(f @ ''.parquet'' \<mapsto> c), trace := trace w @ steps f\<rparr>"
  have "main_loop lib ((f # ok) @ rest) w = main_loop lib (ok @ rest) ?w"
    using main_loop_step [OF c] by simp
  also have "\<dots> = main_loop lib rest (?w\<lparr>files := fs_after lib (files ?w) ok,
                          trace := trace ?w @ concat (map steps ok)\<rparr>)"
    by (rule Cons.IH) (simp add: ok del: fun_upd_apply)
  finally show ?case using c by simp
qed

lemma main_loop_failed:
  "convert_one lib (files w) bad = Inl e \<Longrightarrow>
   main_loop lib (bad # later) w = (w\<lparr>trace := trace w @ failed_steps lib (files w) bad\<rparr>, Raised e)"
  by (auto simp: convert_one_def failed_steps_def steps_def stderr_write_def call_from_file_def
      call_to_parquet_def Let_def split: sum.splits)

lemma converted_split:
  "converted lib fs fnames \<noteq> fnames \<Longrightarrow>
   \<exists>bad later e. fnames = converted lib fs fnames @ bad # later \<and>
      convert_one lib (fs_after lib fs fnames) bad = Inl e"
proof (induction fnames arbitrary: fs)
  case Nil
  then show ?case by simp
next
  case (Cons f fnames)
  show ?case
  proof (cases "convert_one lib fs f")
    case (Inl e)
    then show ?thesis by simp
  next
    case (Inr c)
    with Cons.prems have "converted lib (fs(f @ ''.parquet'' \<mapsto> c)) fnames \<noteq> fnames" by simp
    from Cons.IH [OF this] Inr show ?thesis by (simp del: fun_upd_apply)
  qed
qed

lemma converted_idem: "converted lib fs (converted lib fs fnames) = converted lib fs fnames"
  by (induction fnames arbitrary: fs) (auto split: sum.splits)

lemma fs_after_converted: "fs_after lib fs (converted lib fs fnames) = fs_after lib fs fnames"
  by (induction fnames arbitrary: fs) (auto split: sum.splits)

section \<open>Properties of a run\<close>

lemma script_loop:
  "drop 1 argv \<noteq> [] \<Longrightarrow>
   script lib argv fs = main_loop lib (drop 1 argv) \<lparr>files = fs, trace = []\<rparr>"
  by (cases argv) (auto simp: script_def main_def)

lemma script_usage:
  "drop 1 argv = [] \<Longrightarrow>
   script lib argv fs =
     (\<lparr>files = fs, trace = [Stderr (''Usage: dbn_to_parquet.py <filename>'' @ [CHR 0x0A])]\<rparr>,
      SysExit 1)"
  by (cases argv) (auto simp: script_def main_def stderr_write_def)

lemma main_loop_all:
  assumes "converted lib (files w) fnames = fnames"
  shows "main_loop lib fnames w =
     (w\<lparr>files := fs_after lib (files w) fnames,
         trace := trace w @ concat (map steps fnames)\<rparr>, Returned)"
  using main_loop_converted [OF assms, of "[]"] by simp

lemma main_loop_abort:
  assumes ok: "converted lib (files w) ok = ok"
    and bad: "convert_one lib (fs_after lib (files w) ok) bad = Inl e"
  shows "main_loop lib (ok @ bad # later) w =
     (w\<lparr>files := fs_after lib (files w) ok,
         trace := trace w @ concat (map steps ok) @ failed_steps lib (fs_after lib (files w) ok) bad\<rparr>,
      Raised e)"
proof -
  let ?w = "w\<lparr>files := fs_after lib (files w) ok, trace := trace w @ concat (map steps ok)\<rparr>"
  have "main_loop lib (ok @ bad # later) w = main_loop lib (bad # later) ?w"
    by (rule main_loop_converted [OF ok])
  also have "\<dots> = (?w\<lparr>trace := trace ?w @ failed_steps lib (files ?w) bad\<rparr>, Raised e)"
    by (rule main_loop_failed) (simp add: bad)
  finally show ?thesis by simp
qed

lemma script_all:
  assumes "drop 1 argv \<noteq> []" and "converted lib fs (drop 1 argv) = drop 1 argv"
  shows "script lib argv fs =
     (\<lparr>files = fs_after lib fs (drop 1 argv), trace = concat (map steps (drop 1 argv))\<rparr>, Returned)"
  using assms main_loop_all [of lib "\<lparr>files = fs, trace = []\<rparr>" "drop 1 argv"]
  by (simp add: script_loop)

lemma script_abort:
  assumes "drop 1 argv = ok @ bad # later" and "converted lib fs ok = ok"
    and "convert_one lib (fs_after lib fs ok) bad = Inl e"
  shows "script lib argv fs =
     (\<lparr>files = fs_after lib fs ok,
       trace = concat (map steps ok) @ failed_steps lib (fs_after lib fs ok) bad\<rparr>, Raised e)"
  using assms main_loop_abort [of lib "\<lparr>files = fs, trace = []\<rparr>" ok bad e later]
  by (simp add: script_loop)

subsection \<open>Projections of the expected traces\<close>

lemma stderr_of_append: "stderr_of (xs @ ys) = stderr_of xs @ stderr_of ys"
  by (induction xs rule: stderr_of.induct) simp_all

lemma loads_of_append: "loads_of (xs @ ys) = loads_of xs @ loads_of ys"
  by (induction xs rule: loads_of.induct) simp_all

lemma exports_of_append: "exports_of (xs @ ys) = exports_of xs @ exports_of ys"
  by (induction xs rule: exports_of.induct) simp_all

lemma stderr_of_steps: "stderr_of (concat (map steps fnames)) = concat (map progress fnames)"
  by (induction fnames) (simp_all add: stderr_of_append, simp add: steps_def progress_def)

lemma loads_of_steps: "loads_of (concat (map steps fnames)) = fnames"
  by (induction fnames) (simp_all add: loads_of_append, simp add: steps_def)

lemma exports_of_steps:
  "exports_of (concat (map steps fnames)) = map (\<lambda>f. f @ ''.parquet'') fnames"
  by (induction fnames) (simp_all add: exports_of_append, simp add: steps_def)

lemma stderr_of_failed: "stderr_of (failed_steps lib fs f) = [''Processing '' @ f @ [CHR 0x0A]]"
  by (simp add: failed_steps_def steps_def split: sum.splits)

lemma loads_of_failed: "loads_of (failed_steps lib fs f) = [f]"
  by (simp add: failed_steps_def steps_def split: sum.splits)

lemma exports_of_failed:
  "exports_of (failed_steps lib fs f) =
     (case from_file lib fs f of Inl e \<Rightarrow> [] | Inr s \<Rightarrow> [f @ ''.parquet''])"
  by (simp add: failed_steps_def steps_def split: sum.splits)

lemma failed_steps_prefix: "prefix (failed_steps lib fs f) (steps f)"
  by (simp add: failed_steps_def take_is_prefix split: sum.splits)

subsection \<open>The files a batch leaves\<close>

lemma fs_after_dom:
  "converted lib fs ok = ok \<Longrightarrow> f \<in> set ok \<Longrightarrow> f @ ''.parquet'' \<in> dom (fs_after lib fs ok)"
proof (induction ok arbitrary: fs)
  case Nil
  then show ?case by simp
next
  case (Cons g ok)
  from Cons.prems(1) obtain c where c: "convert_one lib fs g = Inr c"
    and ok: "converted lib (fs(g @ ''.parquet'' \<mapsto> c)) ok = ok"
    by (auto split: sum.splits)
  have mono: "\<And>p fs'. p \<in> dom fs' \<Longrightarrow> p \<in> dom (fs_after lib fs' ok)"
  proof -
    fix p fs' show "p \<in> dom fs' \<Longrightarrow> p \<in> dom (fs_after lib fs' ok)"
      by (induction ok arbitrary: fs') (auto split: sum.splits)
  qed
  show ?case
  proof (cases "f \<in> set ok")
    case True
    with Cons.IH [OF ok] c show ?thesis by (simp del: fun_upd_apply)
  next
    case False
    with Cons.prems(2) have "f = g" by simp
    with c mono [of "g @ ''.parquet''" "fs(g @ ''.parquet'' \<mapsto> c)"] show ?thesis by simp
  qed
qed

lemma fs_after_other:
  "p \<notin> (\<lambda>f. f @ ''.parquet'') ` set fnames \<Longrightarrow> fs_after lib fs fnames p = fs p"
  by (induction fnames arbitrary: fs) (auto split: sum.splits)

lemma script_not_all:
  assumes argv: "drop 1 argv = fnames" and neq: "converted lib fs fnames \<noteq> fnames"
  shows "\<exists>bad later e.
      fnames = converted lib fs fnames @ bad # later \<and>
      convert_one lib (fs_after lib fs fnames) bad = Inl e \<and>
      script lib argv fs =
        (\<lparr>files = fs_after lib fs fnames,
          trace = concat (map steps (converted lib fs fnames)) @
                  failed_steps lib (fs_after lib fs fnames) bad\<rparr>, Raised e)"
proof -
  let ?ok = "converted lib fs fnames"
  from converted_split [OF neq] obtain bad later e where
    split: "fnames = ?ok @ bad # later" and
    bad: "convert_one lib (fs_after lib fs fnames) bad = Inl e"
    by blast
  have bad': "convert_one lib (fs_after lib fs ?ok) bad = Inl e"
    using bad by (simp only: fs_after_converted)
  have "drop 1 argv = ?ok @ bad # later"
    using argv split by simp
  from script_abort [OF this converted_idem bad']
  have "script lib argv fs =
        (\<lparr>files = fs_after lib fs fnames,
          trace = concat (map steps ?ok) @ failed_steps lib (fs_after lib fs fnames) bad\<rparr>,
         Raised e)"
    by (simp only: fs_after_converted)
  with split bad show ?thesis by blast
qed

subsection \<open>Deterministic libraries\<close>

lemma path_determined_deterministic: "path_determined lib \<Longrightarrow> deterministic lib"
  unfolding path_determined_def deterministic_def by blast

lemma convert_one_rerun:
  assumes det: "deterministic lib"
  shows "convert_one lib (fs(f @ ''.parquet'' \<mapsto> c)) f = convert_one lib fs f"
proof -
  have "f \<noteq> f @ ''.parquet''" by simp
  then have "(fs(f @ ''.parquet'' \<mapsto> c)) f = fs f" by simp
  with det have l: "from_file lib (fs(f @ ''.parquet'' \<mapsto> c)) f = from_file lib fs f"
    unfolding deterministic_def by blast
  have "\<forall>q. q \<noteq> f @ ''.parquet'' \<longrightarrow> (fs(f @ ''.parquet'' \<mapsto> c)) q = fs q" by simp
  with det have "\<And>s. to_parquet lib s (f @ ''.parquet'') (fs(f @ ''.parquet'' \<mapsto> c))
      = to_parquet lib s (f @ ''.parquet'') fs"
    unfolding deterministic_def by blast
  with l show ?thesis
    by (simp add: convert_one_def split: sum.splits)
qed

subsection \<open>Every load call follows its announcement\<close>

lemma load_after_event:
  "ev # t = pre @ FromFile f # post \<Longrightarrow>
   (pre = [] \<and> ev = FromFile f \<and> t = post) \<or> (\<exists>pre1. pre = ev # pre1 \<and> t = pre1 @ FromFile f # post)"
  by (cases pre) auto

lemma announced_steps:
  assumes tail: "\<And>pre. tail = pre @ FromFile f # post \<Longrightarrow>
      \<exists>pre'. pre = pre' @ [Stderr (''Processing '' @ f @ [CHR 0x0A])]"
    and eq: "steps g @ tail = pre @ FromFile f # post"
  shows "\<exists>pre'. pre = pre' @ [Stderr (''Processing '' @ f @ [CHR 0x0A])]"
proof -
  let ?A = "Stderr (''Processing '' @ g @ [CHR 0x0A])"
  let ?C = "ToParquet (g @ ''.parquet'')"
  let ?D = "Stderr (''Created '' @ g @ ''.parquet'' @ [CHR 0x0A])"
  from eq have "?A # FromFile g # ?C # ?D # tail = pre @ FromFile f # post"
    by (simp add: steps_def)
  from load_after_event [OF this] obtain p1 where p1: "pre = ?A # p1"
    and e1: "FromFile g # ?C # ?D # tail = p1 @ FromFile f # post"
    by auto
  from load_after_event [OF e1] show ?thesis
  proof
    assume "p1 = [] \<and> FromFile g = FromFile f \<and> ?C # ?D # tail = post"
    with p1 show ?thesis by simp
  next
    assume "\<exists>p2. p1 = FromFile g # p2 \<and> ?C # ?D # tail = p2 @ FromFile f # post"
    then obtain p2 where p2: "p1 = FromFile g # p2"
      and e2: "?C # ?D # tail = p2 @ FromFile f # post" by blast
    from load_after_event [OF e2] obtain p3 where p3: "p2 = ?C # p3"
      and e3: "?D # tail = p3 @ FromFile f # post" by auto
    from load_after_event [OF e3] obtain p4 where p4: "p3 = ?D # p4"
      and e4: "tail = p4 @ FromFile f # post" by auto
    from tail [OF e4] obtain q where "p4 = q @ [Stderr (''Processing '' @ f @ [CHR 0x0A])]"
      by blast
    with p1 p2 p3 p4 show ?thesis by simp
  qed
qed

lemma announced_batch:
  assumes tail: "\<And>pre. tail = pre @ FromFile f # post \<Longrightarrow>
      \<exists>pre'. pre = pre' @ [Stderr (''Processing '' @ f @ [CHR 0x0A])]"
  shows "concat (map steps ok) @ tail = pre @ FromFile f # post \<Longrightarrow>
      \<exists>pre'. pre = pre' @ [Stderr (''Processing '' @ f @ [CHR 0x0A])]"
proof (induction ok arbitrary: pre)
  case Nil
  then show ?case using tail by simp
next
  case (Cons g ok)
  show ?case
  proof (rule announced_steps)
    show "steps g @ (concat (map steps ok) @ tail) = pre @ FromFile f # post"
      using Cons.prems by simp
  next
    fix pre2 assume "concat (map steps ok) @ tail = pre2 @ FromFile f # post"
    then show "\<exists>pre'. pre2 = pre' @ [Stderr (''Processing '' @ f @ [CHR 0x0A])]"
      by (rule Cons.IH)
  qed
qed

lemma announced_failed:
  assumes "failed_steps lib fs bad = pre @ FromFile f # post"
  shows "\<exists>pre'. pre = pre' @ [Stderr (''Processing '' @ f @ [CHR 0x0A])]"
proof -
  have "failed_steps lib fs bad = Stderr (''Processing '' @ bad @ [CHR 0x0A]) # FromFile bad # [] \<or>
        failed_steps lib fs bad = Stderr (''Processing '' @ bad @ [CHR 0x0A]) # FromFile bad #
          ToParquet (bad @ ''.parquet'') # []"
    by (simp add: failed_steps_def steps_def split: sum.splits)
  then show ?thesis
  proof
    assume "failed_steps lib fs bad = Stderr (''Processing '' @ bad @ [CHR 0x0A]) # FromFile bad # []"
    with assms have e: "Stderr (''Processing '' @ bad @ [CHR 0x0A]) # FromFile bad # [] = pre @ FromFile f # post"
      by simp
    from load_after_event [OF e] obtain p1 where p1: "pre = Stderr (''Processing '' @ bad @ [CHR 0x0A]) # p1"
      and e1: "FromFile bad # [] = p1 @ FromFile f # post" by auto
    from load_after_event [OF e1] have "p1 = [] \<and> bad = f" by auto
    with p1 show ?thesis by simp
  next
    assume "failed_steps lib fs bad = Stderr (''Processing '' @ bad @ [CHR 0x0A]) # FromFile bad #
          ToParquet (bad @ ''.parquet'') # []"
    with assms have e: "Stderr (''Processing '' @ bad @ [CHR 0x0A]) # FromFile bad #
          ToParquet (bad @ ''.parquet'') # [] = pre @ FromFile f # post"
      by simp
    from load_after_event [OF e] obtain p1 where p1: "pre = Stderr (''Processing '' @ bad @ [CHR 0x0A]) # p1"
      and e1: "FromFile bad # ToParquet (bad @ ''.parquet'') # [] = p1 @ FromFile f # post" by auto
    from load_after_event [OF e1] show ?thesis
    proof
      assume "p1 = [] \<and> FromFile bad = FromFile f \<and> ToParquet (bad @ ''.parquet'') # [] = post"
      with p1 show ?thesis by simp
    next
      assume "\<exists>p2. p1 = FromFile bad # p2 \<and> ToParquet (bad @ ''.parquet'') # [] = p2 @ FromFile f # post"
      then obtain p2 where e2: "ToParquet (bad @ ''.parquet'') # [] = p2 @ FromFile f # post"
        by blast
      from load_after_event [OF e2] show ?thesis by auto
    qed
  qed
qed

lemma script_announced:
  assumes "trace (fst (script lib argv fs)) = pre @ FromFile f # post"
  shows "\<exists>pre'. pre = pre' @ [Stderr (''Processing '' @ f @ [CHR 0x0A])]"
proof (cases "drop 1 argv = []")
  case True
  with assms have e: "Stderr (''Usage: dbn_to_parquet.py <filename>'' @ [CHR 0x0A]) # [] = pre @ FromFile f # post"
    by (simp add: script_usage)
  from load_after_event [OF e] show ?thesis by auto
next
  case nonempty: False
  show ?thesis
  proof (cases "converted lib fs (drop 1 argv) = drop 1 argv")
    case True
    from script_all [OF nonempty True] assms
    have "concat (map steps (drop 1 argv)) @ [] = pre @ FromFile f # post" by simp
    then show ?thesis
      by (rule announced_batch [rotated]) simp
  next
    case False
    from script_not_all [OF refl False] obtain bad e where
      "script lib argv fs =
        (\<lparr>files = fs_after lib fs (drop 1 argv),
          trace = concat (map steps (converted lib fs (drop 1 argv))) @
                  failed_steps lib (fs_after lib fs (drop 1 argv)) bad\<rparr>, Raised e)"
      by blast
    with assms have "concat (map steps (converted lib fs (drop 1 argv))) @
        failed_steps lib (fs_after lib fs (drop 1 argv)) bad = pre @ FromFile f # post"
      by simp
    then show ?thesis
      by (rule announced_batch [rotated]) (rule announced_failed)
  qed
qed

subsection \<open>The lines on standard error\<close>

lemma count_processing:
  "length (filter (prefix ''Processing '') (concat (map progress fnames))) = length fnames"
  by (induction fnames) (simp_all add: progress_def)

lemma count_created:
  "length (filter (prefix ''Created '') (concat (map progress fnames))) = length fnames"
  by (induction fnames) (simp_all add: progress_def)

lemma script_raised_stderr:
  assumes "snd (script lib argv fs) = Raised e"
  shows "\<exists>bad. stderr_of (trace (fst (script lib argv fs))) =
           concat (map progress (converted lib fs (drop 1 argv))) @ [''Processing '' @ bad @ [CHR 0x0A]]"
proof (cases "drop 1 argv = []")
  case True
  with assms show ?thesis by (simp add: script_usage)
next
  case nonempty: False
  show ?thesis
  proof (cases "converted lib fs (drop 1 argv) = drop 1 argv")
    case True
    from script_all [OF nonempty True] assms show ?thesis by simp
  next
    case False
    from script_not_all [OF refl False] obtain bad e' where
      "script lib argv fs =
        (\<lparr>files = fs_after lib fs (drop 1 argv),
          trace = concat (map steps (converted lib fs (drop 1 argv))) @
                  failed_steps lib (fs_after lib fs (drop 1 argv)) bad\<rparr>, Raised e')"
      by blast
    then show ?thesis
      by (simp add: stderr_of_append stderr_of_steps stderr_of_failed)
  qed
qed

lemma progress_prefix:
  assumes "s \<in> set (progress f)"
  shows "prefix ''Processing '' s \<or> prefix ''Created '' s"
proof -
  have p: "prefix ''Processing '' (''Processing '' @ f @ [CHR 0x0A])"
    by (rule prefixI) (rule refl)
  have c: "prefix ''Created '' (''Created '' @ f @ ''.parquet'' @ [CHR 0x0A])"
    by (rule prefixI) (rule refl)
  from assms have "s = ''Processing '' @ f @ [CHR 0x0A] \<or>
      s = ''Created '' @ f @ ''.parquet'' @ [CHR 0x0A]"
    unfolding progress_def by simp
  with p c show ?thesis by blast
qed

lemma progress_all_prefix:
  "s \<in> set (concat (map progress fnames)) \<Longrightarrow>
   prefix ''Processing '' s \<or> prefix ''Created '' s"
  by (induction fnames) (auto dest: progress_prefix)

lemma script_stderr_progress:
  assumes "drop 1 argv \<noteq> []" and "s \<in> set (stderr_of (trace (fst (script lib argv fs))))"
  shows "prefix ''Processing '' s \<or> prefix ''Created '' s"
proof (cases "converted lib fs (drop 1 argv) = drop 1 argv")
  case True
  from script_all [OF assms(1) True] assms(2)
  have "s \<in> set (concat (map progress (drop 1 argv)))"
    by (simp add: stderr_of_steps)
  then show ?thesis by (rule progress_all_prefix)
next
  case False
  from script_not_all [OF refl False] obtain bad e where
    "script lib argv fs =
      (\<lparr>files = fs_after lib fs (drop 1 argv),
        trace = concat (map steps (converted lib fs (drop 1 argv))) @
                failed_steps lib (fs_after lib fs (drop 1 argv)) bad\<rparr>, Raised e)"
    by blast
  with assms(2) have "s \<in> set (concat (map progress (converted lib fs (drop 1 argv)))) \<or>
      s = ''Processing '' @ bad @ [CHR 0x0A]"
    by (auto simp add: stderr_of_append stderr_of_steps stderr_of_failed simp del: append.simps)
  then show ?thesis
  proof
    assume "s \<in> set (concat (map progress (converted lib fs (drop 1 argv))))"
    then show ?thesis by (rule progress_all_prefix)
  next
    assume "s = ''Processing '' @ bad @ [CHR 0x0A]"
    moreover have "prefix ''Processing '' (''Processing '' @ bad @ [CHR 0x0A])"
      by (rule prefixI) (rule refl)
    ultimately show ?thesis by blast
  qed
qed

subsection \<open>The first events of a run\<close>





subsection \<open>The example library on the example filesystem\<close>

lemma ex_a: "convert_one example_lib example_fs ''a.bin'' = Inr ''PAR1aa''"
  by (simp add: convert_one_def example_lib_def example_fs_def)

lemma ex_ab: "converted example_lib example_fs [''a.bin'', ''b.bin''] = [''a.bin'', ''b.bin'']"
  by (simp add: convert_one_def example_lib_def example_fs_def)

lemma ex_a_bad:
  "converted example_lib example_fs [''a.bin'', ''bad.bin'', ''c.bin''] = [''a.bin'']"
  by (simp add: convert_one_def example_lib_def example_fs_def)

lemma ex_fs_a:
  "fs_after example_lib example_fs [''a.bin''] = example_fs(''a.bin.parquet'' \<mapsto> ''PAR1aa'')"
  by (simp add: convert_one_def example_lib_def example_fs_def)

lemma ex_bad:
  "convert_one example_lib (example_fs(''a.bin.parquet'' \<mapsto> ''PAR1aa'')) ''bad.bin''
     = Inl ''invalid DBN: bad.bin''"
  by (simp add: convert_one_def example_lib_def example_fs_def)

lemma ex_a_only: "converted example_lib example_fs [''a.bin''] = [''a.bin'']"
  by (simp add: ex_a)

lemma example_lib_deterministic: "deterministic example_lib"
  unfolding deterministic_def by (simp add: example_lib_def)

lemma example_lib_reads_input: "\<not> path_determined example_lib"
proof
  assume "path_determined example_lib"
  then have "from_file example_lib example_fs ''a.bin'' = from_file example_lib Map.empty ''a.bin''"
    unfolding path_determined_def by blast
  then show False by (simp add: example_lib_def example_fs_def)
qed

lemma ex_bad_load:
  "from_file example_lib (example_fs(''a.bin.parquet'' \<mapsto> ''PAR1aa'')) ''bad.bin''
     = Inl ''invalid DBN: bad.bin''"
  by (simp add: example_lib_def example_fs_def)

lemma ex_abort_run:
  "script example_lib [''dbn_to_parquet.py'', ''a.bin'', ''bad.bin'', ''c.bin''] example_fs =
     (\<lparr>files = example_fs(''a.bin.parquet'' \<mapsto> ''PAR1aa''),
       trace = steps ''a.bin'' @
         [Stderr (''Processing bad.bin'' @ [CHR 0x0A]), FromFile ''bad.bin'']\<rparr>,
      Raised ''invalid DBN: bad.bin'')"
proof -
  have bad: "convert_one example_lib (fs_after example_lib example_fs [''a.bin'']) ''bad.bin''
     = Inl ''invalid DBN: bad.bin''"
    by (simp only: ex_fs_a ex_bad)
  have "drop 1 [''dbn_to_parquet.py'', ''a.bin'', ''bad.bin'', ''c.bin'']
      = [''a.bin''] @ ''bad.bin'' # [''c.bin'']" by simp
  from script_abort [OF this ex_a_only bad] show ?thesis
    by (simp add: ex_fs_a failed_steps_def ex_bad_load steps_def del: fs_after.simps)
qed


section \<open>The claims\<close>

text \<open>
  Claim C1. For every non-empty list of filename arguments the script goes through the
  filenames in argument order and performs for each one exactly the sequence \<open>steps\<close>:
  the line \<open>Processing <filename>\<close> on standard error, the load call with the filename,
  the export call with the filename followed by \<open>.parquet\<close>, the line
  \<open>Created <filename>.parquet\<close> on standard error. The events of a run are exactly
  these sequences for the files that convert, laid end to end in argument order, followed,
  when a file fails, by the sequence of that file up to the failing call, and by nothing
  else; the files left are those of the conversions made. The run returns exactly when
  every file converts, and then its events are the sequences of all the filenames.
\<close>

theorem C1_processing_sequence:
  assumes "drop 1 argv \<noteq> []"
  shows "trace (fst (script lib argv fs)) =
           concat (map steps (converted lib fs (drop 1 argv))) @
           (if converted lib fs (drop 1 argv) = drop 1 argv then []
            else failed_steps lib (fs_after lib fs (drop 1 argv))
                   (drop 1 argv ! length (converted lib fs (drop 1 argv)))) \<and>
         files (fst (script lib argv fs)) = fs_after lib fs (drop 1 argv) \<and>
         (snd (script lib argv fs) = Returned \<longleftrightarrow>
            converted lib fs (drop 1 argv) = drop 1 argv) \<and>
         prefix (trace (fst (script lib argv fs))) (concat (map steps (drop 1 argv))) \<and>
         (converted lib fs (drop 1 argv) = drop 1 argv \<longrightarrow>
            trace (fst (script lib argv fs)) = concat (map steps (drop 1 argv)) \<and>
            snd (script lib argv fs) = Returned) \<and>
         (snd (script lib argv fs) = Returned \<longrightarrow>
            trace (fst (script lib argv fs)) = concat (map steps (drop 1 argv)))"
proof (cases "converted lib fs (drop 1 argv) = drop 1 argv")
  case True
  from script_all [OF assms True] True show ?thesis by simp
next
  case False
  define fnames where "fnames = drop 1 argv"
  define ok where "ok = converted lib fs fnames"
  from False have neq: "ok \<noteq> fnames"
    by (simp add: fnames_def ok_def)
  then have neq': "converted lib fs fnames \<noteq> fnames"
    by (simp add: ok_def)
  from script_not_all [OF fnames_def [symmetric] neq'] obtain bad later e where
    split: "fnames = ok @ bad # later" and
    run: "script lib argv fs =
        (\<lparr>files = fs_after lib fs fnames,
          trace = concat (map steps ok) @ failed_steps lib (fs_after lib fs fnames) bad\<rparr>,
         Raised e)"
    unfolding ok_def by blast
  have nth: "fnames ! length ok = bad"
    by (subst split) (simp only: nth_append_length)
  have "prefix (concat (map steps ok) @ failed_steps lib (fs_after lib fs fnames) bad)
          (concat (map steps ok) @ steps bad @ concat (map steps later))"
    using failed_steps_prefix [of lib "fs_after lib fs fnames" bad] by (simp add: prefix_prefix)
  also have "concat (map steps ok) @ steps bad @ concat (map steps later) =
      concat (map steps fnames)" by (subst split) simp
  finally have pre: "prefix (trace (fst (script lib argv fs))) (concat (map steps fnames))"
    by (simp add: run)
  have "trace (fst (script lib argv fs)) =
           concat (map steps ok) @
           (if ok = fnames then []
            else failed_steps lib (fs_after lib fs fnames) (fnames ! length ok)) \<and>
         files (fst (script lib argv fs)) = fs_after lib fs fnames \<and>
         (snd (script lib argv fs) = Returned \<longleftrightarrow> ok = fnames) \<and>
         prefix (trace (fst (script lib argv fs))) (concat (map steps fnames)) \<and>
         (ok = fnames \<longrightarrow>
            trace (fst (script lib argv fs)) = concat (map steps fnames) \<and>
            snd (script lib argv fs) = Returned) \<and>
         (snd (script lib argv fs) = Returned \<longrightarrow>
            trace (fst (script lib argv fs)) = concat (map steps fnames))"
    using neq pre by (simp add: run nth)
  then show ?thesis unfolding ok_def fnames_def .
qed

theorem C1_processing_sequence_witness:
  "drop 1 [''dbn_to_parquet.py'', ''a.bin'', ''b.bin''] \<noteq> [] \<and>
   converted example_lib example_fs (drop 1 [''dbn_to_parquet.py'', ''a.bin'', ''b.bin''])
     = drop 1 [''dbn_to_parquet.py'', ''a.bin'', ''b.bin''] \<and>
   trace (fst (script example_lib [''dbn_to_parquet.py'', ''a.bin'', ''b.bin''] example_fs)) =
     [Stderr (''Processing a.bin'' @ [CHR 0x0A]), FromFile ''a.bin'',
      ToParquet ''a.bin.parquet'', Stderr (''Created a.bin.parquet'' @ [CHR 0x0A]),
      Stderr (''Processing b.bin'' @ [CHR 0x0A]), FromFile ''b.bin'',
      ToParquet ''b.bin.parquet'', Stderr (''Created b.bin.parquet'' @ [CHR 0x0A])] \<and>
   snd (script example_lib [''dbn_to_parquet.py'', ''a.bin'', ''b.bin''] example_fs) = Returned \<and>
   drop 1 [''dbn_to_parquet.py'', ''a.bin'', ''bad.bin'', ''c.bin''] \<noteq> [] \<and>
   trace (fst (script example_lib [''dbn_to_parquet.py'', ''a.bin'', ''bad.bin'', ''c.bin''] example_fs)) =
     [Stderr (''Processing a.bin'' @ [CHR 0x0A]), FromFile ''a.bin'',
      ToParquet ''a.bin.parquet'', Stderr (''Created a.bin.parquet'' @ [CHR 0x0A]),
      Stderr (''Processing bad.bin'' @ [CHR 0x0A]), FromFile ''bad.bin''] \<and>
   files (fst (script example_lib [''dbn_to_parquet.py'', ''a.bin'', ''bad.bin'', ''c.bin''] example_fs))
     = example_fs(''a.bin.parquet'' \<mapsto> ''PAR1aa'') \<and>
   snd (script example_lib [''dbn_to_parquet.py'', ''a.bin'', ''bad.bin'', ''c.bin''] example_fs)
     \<noteq> Returned"
proof -
  let ?good = "script example_lib [''dbn_to_parquet.py'', ''a.bin'', ''b.bin''] example_fs"
  let ?bad = "script example_lib [''dbn_to_parquet.py'', ''a.bin'', ''bad.bin'', ''c.bin''] example_fs"
  note good = C1_processing_sequence
    [of "[''dbn_to_parquet.py'', ''a.bin'', ''b.bin'']" example_lib example_fs]
  note bad = C1_processing_sequence
    [of "[''dbn_to_parquet.py'', ''a.bin'', ''bad.bin'', ''c.bin'']" example_lib example_fs]
  have ab: "converted example_lib example_fs (drop 1 [''dbn_to_parquet.py'', ''a.bin'', ''b.bin''])
     = drop 1 [''dbn_to_parquet.py'', ''a.bin'', ''b.bin'']"
    using ex_ab by simp
  from good ab have g1: "trace (fst ?good) = concat (map steps [''a.bin'', ''b.bin''])"
    and g2: "snd ?good = Returned"
    by simp_all
  have cv: "converted example_lib example_fs (drop 1 [''dbn_to_parquet.py'', ''a.bin'', ''bad.bin'', ''c.bin''])
      = [''a.bin'']"
    using ex_a_bad by simp
  have fa: "fs_after example_lib example_fs (drop 1 [''dbn_to_parquet.py'', ''a.bin'', ''bad.bin'', ''c.bin''])
      = example_fs(''a.bin.parquet'' \<mapsto> ''PAR1aa'')"
    using ex_a ex_bad by simp
  from bad have b0: "trace (fst ?bad) =
      concat (map steps (converted example_lib example_fs (drop 1 [''dbn_to_parquet.py'', ''a.bin'', ''bad.bin'', ''c.bin'']))) @
      (if converted example_lib example_fs (drop 1 [''dbn_to_parquet.py'', ''a.bin'', ''bad.bin'', ''c.bin''])
          = drop 1 [''dbn_to_parquet.py'', ''a.bin'', ''bad.bin'', ''c.bin''] then []
       else failed_steps example_lib
          (fs_after example_lib example_fs (drop 1 [''dbn_to_parquet.py'', ''a.bin'', ''bad.bin'', ''c.bin'']))
          (drop 1 [''dbn_to_parquet.py'', ''a.bin'', ''bad.bin'', ''c.bin''] !
             length (converted example_lib example_fs (drop 1 [''dbn_to_parquet.py'', ''a.bin'', ''bad.bin'', ''c.bin'']))))"
    and b1: "files (fst ?bad) =
      fs_after example_lib example_fs (drop 1 [''dbn_to_parquet.py'', ''a.bin'', ''bad.bin'', ''c.bin''])"
    and b2: "snd ?bad = Returned \<longleftrightarrow>
      converted example_lib example_fs (drop 1 [''dbn_to_parquet.py'', ''a.bin'', ''bad.bin'', ''c.bin''])
        = drop 1 [''dbn_to_parquet.py'', ''a.bin'', ''bad.bin'', ''c.bin'']"
    by simp_all
  have t: "trace (fst ?bad) =
     [Stderr (''Processing a.bin'' @ [CHR 0x0A]), FromFile ''a.bin'',
      ToParquet ''a.bin.parquet'', Stderr (''Created a.bin.parquet'' @ [CHR 0x0A]),
      Stderr (''Processing bad.bin'' @ [CHR 0x0A]), FromFile ''bad.bin'']"
    unfolding b0 cv fa
    by (simp add: failed_steps_def ex_bad_load steps_def)
  have f: "files (fst ?bad) = example_fs(''a.bin.parquet'' \<mapsto> ''PAR1aa'')"
    unfolding b1 fa ..
  have r: "snd ?bad \<noteq> Returned"
    unfolding b2 cv by simp
  from g1 g2 ab t f r show ?thesis
    by (simp add: steps_def)
qed

text \<open>
  Claim C2. With no filename argument the script writes the usage message to standard
  error and leaves through \<^verbatim>\<open>sys.exit(1)\<close>, so the exit status is 1. It converts
  nothing: neither library call is made and the filesystem is the one it found.
\<close>

theorem C2_no_arguments:
  assumes "drop 1 argv = []"
  shows "trace (fst (script lib argv fs)) =
           [Stderr (''Usage: dbn_to_parquet.py <filename>'' @ [CHR 0x0A])] \<and>
         snd (script lib argv fs) = SysExit 1 \<and>
         exit_status (snd (script lib argv fs)) = 1 \<and>
         loads_of (trace (fst (script lib argv fs))) = [] \<and>
         exports_of (trace (fst (script lib argv fs))) = [] \<and>
         files (fst (script lib argv fs)) = fs"
  by (simp add: script_usage [OF assms])

theorem C2_no_arguments_witness:
  "drop 1 [''dbn_to_parquet.py''] = [] \<and>
   stderr_of (trace (fst (script example_lib [''dbn_to_parquet.py''] example_fs))) =
     [''Usage: dbn_to_parquet.py <filename>'' @ [CHR 0x0A]] \<and>
   exit_status (snd (script example_lib [''dbn_to_parquet.py''] example_fs)) = 1 \<and>
   loads_of (trace (fst (script example_lib [''dbn_to_parquet.py''] example_fs))) = [] \<and>
   exports_of (trace (fst (script example_lib [''dbn_to_parquet.py''] example_fs))) = [] \<and>
   files (fst (script example_lib [''dbn_to_parquet.py''] example_fs)) = example_fs"
  using C2_no_arguments [of "[''dbn_to_parquet.py'']" example_lib example_fs]
  by simp

text \<open>
  Claim C3. A failure of a library call is not caught or translated: when the files
  \<open>ok\<close> convert and the load or the export of the next file \<open>bad\<close> raises \<open>e\<close>, the
  run ends with that very \<open>e\<close> and a non-zero exit status, the failing call being its
  last event. Every file of \<open>ok\<close> has been converted and its \<open>.parquet\<close> output exists.
  No file after \<open>bad\<close> is loaded or exported, and the output path of a later file is as
  the run found it (unless the same filename also stands among the converted ones). For
  the list \<open>[a.bin, bad.bin, c.bin]\<close> this is the instance proved after the theorem.
\<close>

theorem C3_first_failure_aborts:
  assumes argv: "drop 1 argv = ok @ bad # later"
    and ok: "converted lib fs ok = ok"
    and bad: "convert_one lib (fs_after lib fs ok) bad = Inl e"
  shows "snd (script lib argv fs) = Raised e \<and>
         exit_status (snd (script lib argv fs)) \<noteq> 0 \<and>
         trace (fst (script lib argv fs)) =
           concat (map steps ok) @ failed_steps lib (fs_after lib fs ok) bad \<and>
         loads_of (trace (fst (script lib argv fs))) = ok @ [bad] \<and>
         exports_of (trace (fst (script lib argv fs))) =
           map (\<lambda>f. f @ ''.parquet'') ok @
           (case from_file lib (fs_after lib fs ok) bad of
              Inl x \<Rightarrow> [] | Inr s \<Rightarrow> [bad @ ''.parquet'']) \<and>
         (\<forall>f \<in> set ok. f @ ''.parquet'' \<in> dom (files (fst (script lib argv fs)))) \<and>
         (\<forall>c \<in> set later. c \<notin> set ok \<longrightarrow>
            files (fst (script lib argv fs)) (c @ ''.parquet'') = fs (c @ ''.parquet''))"
proof -
  have run: "script lib argv fs =
     (\<lparr>files = fs_after lib fs ok,
       trace = concat (map steps ok) @ failed_steps lib (fs_after lib fs ok) bad\<rparr>, Raised e)"
    by (rule script_abort [OF argv ok bad])
  have exist: "\<forall>f \<in> set ok. f @ ''.parquet'' \<in> dom (fs_after lib fs ok)"
    using fs_after_dom [OF ok] by blast
  have later: "\<forall>c \<in> set later. c \<notin> set ok \<longrightarrow>
      fs_after lib fs ok (c @ ''.parquet'') = fs (c @ ''.parquet'')"
  proof (intro ballI impI)
    fix c assume "c \<notin> set ok"
    then have "c @ ''.parquet'' \<notin> (\<lambda>f. f @ ''.parquet'') ` set ok" by auto
    then show "fs_after lib fs ok (c @ ''.parquet'') = fs (c @ ''.parquet'')"
      by (rule fs_after_other)
  qed
  show ?thesis
    using exist later
    by (simp add: run loads_of_append loads_of_steps loads_of_failed
        exports_of_append exports_of_steps exports_of_failed)
qed

theorem C3_first_failure_aborts_witness:
  "drop 1 [''dbn_to_parquet.py'', ''a.bin'', ''bad.bin'', ''c.bin''] = [''a.bin''] @ ''bad.bin'' # [''c.bin''] \<and>
   converted example_lib example_fs [''a.bin''] = [''a.bin''] \<and>
   convert_one example_lib (fs_after example_lib example_fs [''a.bin'']) ''bad.bin''
     = Inl ''invalid DBN: bad.bin'' \<and>
   snd (script example_lib [''dbn_to_parquet.py'', ''a.bin'', ''bad.bin'', ''c.bin''] example_fs)
     = Raised ''invalid DBN: bad.bin'' \<and>
   exit_status (snd (script example_lib [''dbn_to_parquet.py'', ''a.bin'', ''bad.bin'', ''c.bin''] example_fs)) \<noteq> 0 \<and>
   loads_of (trace (fst (script example_lib [''dbn_to_parquet.py'', ''a.bin'', ''bad.bin'', ''c.bin''] example_fs)))
     = [''a.bin'', ''bad.bin''] \<and>
   exports_of (trace (fst (script example_lib [''dbn_to_parquet.py'', ''a.bin'', ''bad.bin'', ''c.bin''] example_fs)))
     = [''a.bin.parquet''] \<and>
   ''a.bin.parquet'' \<in> dom (files (fst (script example_lib [''dbn_to_parquet.py'', ''a.bin'', ''bad.bin'', ''c.bin''] example_fs))) \<and>
   files (fst (script example_lib [''dbn_to_parquet.py'', ''a.bin'', ''bad.bin'', ''c.bin''] example_fs)) ''c.bin.parquet''
     = None"
proof -
  have a: "drop 1 [''dbn_to_parquet.py'', ''a.bin'', ''bad.bin'', ''c.bin'']
             = [''a.bin''] @ ''bad.bin'' # [''c.bin'']" by simp
  have ok: "converted example_lib example_fs [''a.bin''] = [''a.bin'']"
    by (simp add: ex_a)
  have bad: "convert_one example_lib (fs_after example_lib example_fs [''a.bin'']) ''bad.bin''
     = Inl ''invalid DBN: bad.bin''"
    by (simp only: ex_fs_a ex_bad)
  have ld: "from_file example_lib (example_fs(''a.bin.parquet'' \<mapsto> ''PAR1aa'')) ''bad.bin''
      = Inl ''invalid DBN: bad.bin''"
    by (simp add: example_lib_def example_fs_def)
  have c: "example_fs ''c.bin.parquet'' = None"
    by (simp add: example_fs_def)
  show ?thesis
    using C3_first_failure_aborts [OF a ok bad] ok bad c
    by (simp add: ex_fs_a ld steps_def failed_steps_def del: fs_after.simps converted.simps)
qed

text \<open>
  Claim C4. With at least one filename the exit status is 0 exactly when every filename
  converts. Otherwise the run ends with the exception of the first file that does not
  convert, and the exit status is 1.
\<close>

theorem C4_exit_status:
  assumes "drop 1 argv \<noteq> []"
  shows "(exit_status (snd (script lib argv fs)) = 0 \<longleftrightarrow>
            converted lib fs (drop 1 argv) = drop 1 argv) \<and>
         (converted lib fs (drop 1 argv) \<noteq> drop 1 argv \<longrightarrow>
            (\<exists>bad later e.
               drop 1 argv = converted lib fs (drop 1 argv) @ bad # later \<and>
               convert_one lib (fs_after lib fs (drop 1 argv)) bad = Inl e \<and>
               snd (script lib argv fs) = Raised e \<and>
               exit_status (snd (script lib argv fs)) = 1))"
proof (cases "converted lib fs (drop 1 argv) = drop 1 argv")
  case True
  from script_all [OF assms True] True show ?thesis by simp
next
  case False
  from script_not_all [OF refl False] obtain bad later e where
    "drop 1 argv = converted lib fs (drop 1 argv) @ bad # later"
    "convert_one lib (fs_after lib fs (drop 1 argv)) bad = Inl e"
    "snd (script lib argv fs) = Raised e"
    by fastforce
  with False show ?thesis by auto
qed

theorem C4_exit_status_witness:
  "drop 1 [''dbn_to_parquet.py'', ''a.bin'', ''b.bin''] \<noteq> [] \<and>
   converted example_lib example_fs [''a.bin'', ''b.bin''] = [''a.bin'', ''b.bin''] \<and>
   exit_status (snd (script example_lib [''dbn_to_parquet.py'', ''a.bin'', ''b.bin''] example_fs)) = 0 \<and>
   converted example_lib example_fs [''a.bin'', ''bad.bin'', ''c.bin''] \<noteq> [''a.bin'', ''bad.bin'', ''c.bin''] \<and>
   exit_status (snd (script example_lib [''dbn_to_parquet.py'', ''a.bin'', ''bad.bin'', ''c.bin''] example_fs)) = 1"
  using C4_exit_status [of "[''dbn_to_parquet.py'', ''a.bin'', ''b.bin'']" example_lib example_fs]
    C4_exit_status [of "[''dbn_to_parquet.py'', ''a.bin'', ''bad.bin'', ''c.bin'']" example_lib example_fs]
    ex_ab ex_a_bad
  by (auto simp del: converted.simps fs_after.simps)

text \<open>
  Claim C5. For the arguments \<open>[a, b]\<close>, both converting, the run makes the two
  conversions one after the other: the export calls are for \<open>a.parquet\<close> then
  \<open>b.parquet\<close> (each name being the input name with \<open>.parquet\<close> appended), both files
  exist afterwards, and standard error holds exactly four lines, interleaved:
  Processing a, Created a, Processing b, Created b. The instance \<open>a.bin\<close>, \<open>b.bin\<close>
  follows the theorem.
\<close>

theorem C5_two_valid_files:
  assumes "converted lib fs [a, b] = [a, b]"
  shows "trace (fst (script lib [prog, a, b] fs)) = steps a @ steps b \<and>
         stderr_of (trace (fst (script lib [prog, a, b] fs))) =
           [''Processing '' @ a @ [CHR 0x0A], ''Created '' @ a @ ''.parquet'' @ [CHR 0x0A],
            ''Processing '' @ b @ [CHR 0x0A], ''Created '' @ b @ ''.parquet'' @ [CHR 0x0A]] \<and>
         exports_of (trace (fst (script lib [prog, a, b] fs))) = [a @ ''.parquet'', b @ ''.parquet''] \<and>
         a @ ''.parquet'' \<in> dom (files (fst (script lib [prog, a, b] fs))) \<and>
         b @ ''.parquet'' \<in> dom (files (fst (script lib [prog, a, b] fs))) \<and>
         snd (script lib [prog, a, b] fs) = Returned"
proof -
  have run: "script lib [prog, a, b] fs =
      (\<lparr>files = fs_after lib fs [a, b], trace = concat (map steps [a, b])\<rparr>, Returned)"
    using script_all [of "[prog, a, b]" lib fs] assms by simp
  have "a @ ''.parquet'' \<in> dom (fs_after lib fs [a, b])"
    by (rule fs_after_dom [OF assms]) simp
  moreover have "b @ ''.parquet'' \<in> dom (fs_after lib fs [a, b])"
    by (rule fs_after_dom [OF assms]) simp
  moreover have "stderr_of (steps a @ steps b) = progress a @ progress b"
    using stderr_of_steps [of "[a, b]"] by simp
  moreover have "exports_of (steps a @ steps b) = [a @ ''.parquet'', b @ ''.parquet'']"
    using exports_of_steps [of "[a, b]"] by simp
  ultimately show ?thesis
    by (simp add: run progress_def del: fs_after.simps)
qed

theorem C5_two_valid_files_witness:
  "converted example_lib example_fs [''a.bin'', ''b.bin''] = [''a.bin'', ''b.bin''] \<and>
   stderr_of (trace (fst (script example_lib [''dbn_to_parquet.py'', ''a.bin'', ''b.bin''] example_fs))) =
     [''Processing a.bin'' @ [CHR 0x0A], ''Created a.bin.parquet'' @ [CHR 0x0A],
      ''Processing b.bin'' @ [CHR 0x0A], ''Created b.bin.parquet'' @ [CHR 0x0A]] \<and>
   exports_of (trace (fst (script example_lib [''dbn_to_parquet.py'', ''a.bin'', ''b.bin''] example_fs))) =
     [''a.bin.parquet'', ''b.bin.parquet''] \<and>
   ''a.bin.parquet'' \<in> dom (files (fst (script example_lib [''dbn_to_parquet.py'', ''a.bin'', ''b.bin''] example_fs))) \<and>
   ''b.bin.parquet'' \<in> dom (files (fst (script example_lib [''dbn_to_parquet.py'', ''a.bin'', ''b.bin''] example_fs))) \<and>
   snd (script example_lib [''dbn_to_parquet.py'', ''a.bin'', ''b.bin''] example_fs) = Returned"
  using C5_two_valid_files [OF ex_ab, where prog = "''dbn_to_parquet.py''"] ex_ab
  by (simp add: steps_def del: converted.simps)

text \<open>
  Claim C6. Each file that is converted contributes exactly the two writes
  \<open>progress f\<close> to standard error, \<open>Processing <f>\<close> and \<open>Created <f>.parquet\<close>, each
  ended by a newline, the output name being the input name with \<open>.parquet\<close> appended.
  Standard error holds these pairs in argument order and, when a file fails, the
  \<open>Processing\<close> line of that file after them; nothing else. For the one input
  \<open>a.bin\<close> the two lines name \<open>a.bin\<close> and \<open>a.bin.parquet\<close>.
\<close>

theorem C6_progress_lines:
  assumes "drop 1 argv \<noteq> []"
  shows "stderr_of (trace (fst (script lib argv fs))) =
           concat (map progress (converted lib fs (drop 1 argv))) @
           (if converted lib fs (drop 1 argv) = drop 1 argv then []
            else [''Processing '' @ drop 1 argv ! length (converted lib fs (drop 1 argv)) @ [CHR 0x0A]])"
proof (cases "converted lib fs (drop 1 argv) = drop 1 argv")
  case True
  from script_all [OF assms True] True show ?thesis
    by (simp add: stderr_of_steps)
next
  case False
  from script_not_all [OF refl False] obtain bad later e where
    split: "drop 1 argv = converted lib fs (drop 1 argv) @ bad # later" and
    run: "script lib argv fs =
        (\<lparr>files = fs_after lib fs (drop 1 argv),
          trace = concat (map steps (converted lib fs (drop 1 argv))) @
                  failed_steps lib (fs_after lib fs (drop 1 argv)) bad\<rparr>, Raised e)"
    by blast
  have "drop 1 argv ! length (converted lib fs (drop 1 argv)) = bad"
    by (subst split) (simp only: nth_append_length)
  with False show ?thesis
    by (simp add: run stderr_of_append stderr_of_steps stderr_of_failed)
qed

theorem C6_progress_lines_witness:
  "drop 1 [''dbn_to_parquet.py'', ''a.bin''] \<noteq> [] \<and>
   converted example_lib example_fs [''a.bin''] = [''a.bin''] \<and>
   stderr_of (trace (fst (script example_lib [''dbn_to_parquet.py'', ''a.bin''] example_fs))) =
     [''Processing a.bin'' @ [CHR 0x0A], ''Created a.bin.parquet'' @ [CHR 0x0A]]"
  using C6_progress_lines [of "[''dbn_to_parquet.py'', ''a.bin'']" example_lib example_fs] ex_a_only
  by (simp add: progress_def del: converted.simps)

text \<open>
  Claim C7. Let the library be deterministic: the load depends on the content of the file
  it is given, the export on the store and the path, not on what the output path held
  before (a library whose answers depend on the path arguments alone is one such). Let
  \<open>f\<close> convert. Then a run on \<open>f\<close> and a second run on \<open>f\<close>, started in the filesystem
  the first one leaves, both export to the one path \<open>f.parquet\<close>; the file of the first
  run is there when the second starts, \<open>f\<close> converts again to the same content, and the
  second run leaves the filesystem exactly as the first one left it.
\<close>

theorem C7_rerun_same_output:
  assumes det: "deterministic lib" and valid: "convert_one lib fs f = Inr c"
  shows "files (fst (script lib [prog, f] fs)) = fs(f @ ''.parquet'' \<mapsto> c) \<and>
         exports_of (trace (fst (script lib [prog, f] fs))) = [f @ ''.parquet''] \<and>
         snd (script lib [prog, f] fs) = Returned \<and>
         exports_of (trace (fst (script lib [prog, f] (files (fst (script lib [prog, f] fs))))))
           = [f @ ''.parquet''] \<and>
         snd (script lib [prog, f] (files (fst (script lib [prog, f] fs)))) = Returned \<and>
         files (fst (script lib [prog, f] (files (fst (script lib [prog, f] fs)))))
           = files (fst (script lib [prog, f] fs)) \<and>
         files (fst (script lib [prog, f] fs)) (f @ ''.parquet'') = Some c \<and>
         files (fst (script lib [prog, f] (files (fst (script lib [prog, f] fs)))))
           (f @ ''.parquet'') = Some c \<and>
         convert_one lib (files (fst (script lib [prog, f] fs))) f = Inr c"
proof -
  have run: "\<And>fs'. convert_one lib fs' f = Inr c \<Longrightarrow>
      script lib [prog, f] fs' =
        (\<lparr>files = fs'(f @ ''.parquet'' \<mapsto> c), trace = steps f\<rparr>, Returned)"
  proof -
    fix fs' :: "'a filesystem"
    assume c: "convert_one lib fs' f = Inr c"
    then have "converted lib fs' (drop 1 [prog, f]) = drop 1 [prog, f]" by simp
    from script_all [OF _ this] c show "script lib [prog, f] fs' =
        (\<lparr>files = fs'(f @ ''.parquet'' \<mapsto> c), trace = steps f\<rparr>, Returned)"
      by simp
  qed
  have first: "script lib [prog, f] fs =
      (\<lparr>files = fs(f @ ''.parquet'' \<mapsto> c), trace = steps f\<rparr>, Returned)"
    by (rule run [OF valid])
  have again: "convert_one lib (fs(f @ ''.parquet'' \<mapsto> c)) f = Inr c"
    using convert_one_rerun [OF det, of fs f c] valid by simp
  from run [OF this]
  have second: "script lib [prog, f] (fs(f @ ''.parquet'' \<mapsto> c)) =
      (\<lparr>files = fs(f @ ''.parquet'' \<mapsto> c), trace = steps f\<rparr>, Returned)"
    by simp
  have "exports_of (steps f) = [f @ ''.parquet'']"
    by (simp add: steps_def)
  then show ?thesis
    using again by (simp add: first second)
qed

theorem C7_rerun_same_output_witness:
  "deterministic example_lib \<and>
   convert_one example_lib example_fs ''a.bin'' = Inr ''PAR1aa'' \<and>
   files (fst (script example_lib [''dbn_to_parquet.py'', ''a.bin''] example_fs))
     = example_fs(''a.bin.parquet'' \<mapsto> ''PAR1aa'') \<and>
   files (fst (script example_lib [''dbn_to_parquet.py'', ''a.bin'']
       (files (fst (script example_lib [''dbn_to_parquet.py'', ''a.bin''] example_fs)))))
     = example_fs(''a.bin.parquet'' \<mapsto> ''PAR1aa'') \<and>
   exports_of (trace (fst (script example_lib [''dbn_to_parquet.py'', ''a.bin'']
       (files (fst (script example_lib [''dbn_to_parquet.py'', ''a.bin''] example_fs))))))
     = [''a.bin.parquet'']"
proof -
  let ?first = "script example_lib [''dbn_to_parquet.py'', ''a.bin''] example_fs"
  let ?second = "script example_lib [''dbn_to_parquet.py'', ''a.bin''] (files (fst ?first))"
  note run = C7_rerun_same_output [OF example_lib_deterministic ex_a,
      where prog = "''dbn_to_parquet.py''"]
  from run have first: "files (fst ?first) = example_fs(''a.bin.parquet'' \<mapsto> ''PAR1aa'')"
    by simp
  from run have same: "files (fst ?second) = files (fst ?first)"
    by blast
  from run have ex: "exports_of (trace (fst ?second)) = [''a.bin'' @ ''.parquet'']"
    by blast
  have "files (fst ?second) = example_fs(''a.bin.parquet'' \<mapsto> ''PAR1aa'')"
    using same first by (rule trans)
  moreover have "exports_of (trace (fst ?second)) = [''a.bin.parquet'']"
    using ex by simp
  ultimately show ?thesis
    using first example_lib_deterministic ex_a by blast
qed

text \<open>
  Claim C8. The event just before every load call is the write of the \<open>Processing\<close>
  line of the file being loaded. So a file that fails to decode has its \<open>Processing\<close>
  line on standard error, followed by the failing load and nothing more, in particular no
  \<open>Created\<close> line; and whenever a run is ended by an exception, standard error holds
  exactly one more \<open>Processing\<close> line than \<open>Created\<close> lines.
\<close>

theorem C8_processing_before_load:
  "(\<forall>pre f post. trace (fst (script lib argv fs)) = pre @ FromFile f # post \<longrightarrow>
      (\<exists>pre'. pre = pre' @ [Stderr (''Processing '' @ f @ [CHR 0x0A])])) \<and>
   (\<forall>ok bad later e.
      drop 1 argv = ok @ bad # later \<and> converted lib fs ok = ok \<and>
      from_file lib (fs_after lib fs ok) bad = Inl e \<longrightarrow>
        trace (fst (script lib argv fs)) =
          concat (map steps ok) @ [Stderr (''Processing '' @ bad @ [CHR 0x0A]), FromFile bad] \<and>
        stderr_of (trace (fst (script lib argv fs))) =
          concat (map progress ok) @ [''Processing '' @ bad @ [CHR 0x0A]]) \<and>
   (\<forall>e. snd (script lib argv fs) = Raised e \<longrightarrow>
      length (filter (prefix ''Processing '') (stderr_of (trace (fst (script lib argv fs))))) =
      Suc (length (filter (prefix ''Created '') (stderr_of (trace (fst (script lib argv fs)))))))"
proof (intro conjI allI impI)
  fix pre f post
  assume "trace (fst (script lib argv fs)) = pre @ FromFile f # post"
  then show "\<exists>pre'. pre = pre' @ [Stderr (''Processing '' @ f @ [CHR 0x0A])]"
    by (rule script_announced)
next
  fix ok bad later e
  assume h: "drop 1 argv = ok @ bad # later \<and> converted lib fs ok = ok \<and>
      from_file lib (fs_after lib fs ok) bad = Inl e"
  then have bad: "convert_one lib (fs_after lib fs ok) bad = Inl e"
    by (simp add: convert_one_def)
  from h have fl: "failed_steps lib (fs_after lib fs ok) bad =
      [Stderr (''Processing '' @ bad @ [CHR 0x0A]), FromFile bad]"
    by (simp add: failed_steps_def steps_def)
  from h script_abort [OF _ _ bad, where argv = argv and later = later]
  have run: "script lib argv fs =
     (\<lparr>files = fs_after lib fs ok,
       trace = concat (map steps ok) @ failed_steps lib (fs_after lib fs ok) bad\<rparr>, Raised e)"
    by blast
  show "trace (fst (script lib argv fs)) =
          concat (map steps ok) @ [Stderr (''Processing '' @ bad @ [CHR 0x0A]), FromFile bad]"
    by (simp add: run fl)
  show "stderr_of (trace (fst (script lib argv fs))) =
          concat (map progress ok) @ [''Processing '' @ bad @ [CHR 0x0A]]"
    by (simp add: run fl stderr_of_append stderr_of_steps)
next
  fix e
  assume "snd (script lib argv fs) = Raised e"
  from script_raised_stderr [OF this] obtain bad where
    "stderr_of (trace (fst (script lib argv fs))) =
       concat (map progress (converted lib fs (drop 1 argv))) @ [''Processing '' @ bad @ [CHR 0x0A]]"
    by blast
  then show "length (filter (prefix ''Processing '') (stderr_of (trace (fst (script lib argv fs))))) =
      Suc (length (filter (prefix ''Created '') (stderr_of (trace (fst (script lib argv fs))))))"
    by (simp add: count_processing count_created)
qed


theorem C8_processing_before_load_witness:
  "trace (fst (script example_lib [''dbn_to_parquet.py'', ''a.bin'', ''bad.bin'', ''c.bin''] example_fs))
     = (steps ''a.bin'' @ [Stderr (''Processing bad.bin'' @ [CHR 0x0A])]) @ FromFile ''bad.bin'' # [] \<and>
   (\<exists>pre'. steps ''a.bin'' @ [Stderr (''Processing bad.bin'' @ [CHR 0x0A])]
      = pre' @ [Stderr (''Processing '' @ ''bad.bin'' @ [CHR 0x0A])]) \<and>
   drop 1 [''dbn_to_parquet.py'', ''a.bin'', ''bad.bin'', ''c.bin'']
     = [''a.bin''] @ ''bad.bin'' # [''c.bin''] \<and>
   converted example_lib example_fs [''a.bin''] = [''a.bin''] \<and>
   from_file example_lib (fs_after example_lib example_fs [''a.bin'']) ''bad.bin''
     = Inl ''invalid DBN: bad.bin'' \<and>
   stderr_of (trace (fst (script example_lib [''dbn_to_parquet.py'', ''a.bin'', ''bad.bin'', ''c.bin''] example_fs)))
     = [''Processing a.bin'' @ [CHR 0x0A], ''Created a.bin.parquet'' @ [CHR 0x0A],
        ''Processing bad.bin'' @ [CHR 0x0A]] \<and>
   snd (script example_lib [''dbn_to_parquet.py'', ''a.bin'', ''bad.bin'', ''c.bin''] example_fs)
     = Raised ''invalid DBN: bad.bin'' \<and>
   length (filter (prefix ''Processing '')
     (stderr_of (trace (fst (script example_lib [''dbn_to_parquet.py'', ''a.bin'', ''bad.bin'', ''c.bin''] example_fs)))))
     = Suc (length (filter (prefix ''Created '')
     (stderr_of (trace (fst (script example_lib [''dbn_to_parquet.py'', ''a.bin'', ''bad.bin'', ''c.bin''] example_fs))))))"
proof -
  let ?run = "script example_lib [''dbn_to_parquet.py'', ''a.bin'', ''bad.bin'', ''c.bin''] example_fs"
  note c8 = C8_processing_before_load
    [of example_lib "[''dbn_to_parquet.py'', ''a.bin'', ''bad.bin'', ''c.bin'']" example_fs]
  have tr: "trace (fst ?run)
     = (steps ''a.bin'' @ [Stderr (''Processing bad.bin'' @ [CHR 0x0A])]) @ FromFile ''bad.bin'' # []"
    by (simp add: ex_abort_run)
  from c8 tr have before: "\<exists>pre'. steps ''a.bin'' @ [Stderr (''Processing bad.bin'' @ [CHR 0x0A])]
      = pre' @ [Stderr (''Processing '' @ ''bad.bin'' @ [CHR 0x0A])]"
    by blast
  have hyp: "drop 1 [''dbn_to_parquet.py'', ''a.bin'', ''bad.bin'', ''c.bin'']
       = [''a.bin''] @ ''bad.bin'' # [''c.bin''] \<and>
     converted example_lib example_fs [''a.bin''] = [''a.bin''] \<and>
     from_file example_lib (fs_after example_lib example_fs [''a.bin'']) ''bad.bin''
       = Inl ''invalid DBN: bad.bin''"
    by (simp add: ex_fs_a ex_bad_load ex_a_only del: fs_after.simps converted.simps)
  from c8 hyp have "stderr_of (trace (fst ?run)) =
      concat (map progress [''a.bin'']) @ [''Processing '' @ ''bad.bin'' @ [CHR 0x0A]]"
    by blast
  then have err: "stderr_of (trace (fst ?run))
     = [''Processing a.bin'' @ [CHR 0x0A], ''Created a.bin.parquet'' @ [CHR 0x0A],
        ''Processing bad.bin'' @ [CHR 0x0A]]"
    by (simp add: progress_def)
  have raised: "snd ?run = Raised ''invalid DBN: bad.bin''"
    by (simp add: ex_abort_run)
  from c8 raised have cnt: "length (filter (prefix ''Processing '') (stderr_of (trace (fst ?run))))
     = Suc (length (filter (prefix ''Created '') (stderr_of (trace (fst ?run)))))"
    by blast
  from tr before hyp err raised cnt show ?thesis by blast
qed

text \<open>
  Claim C9. With no filename argument, standard error holds exactly the one line
  \<open>Usage: dbn_to_parquet.py <filename>\<close> with its newline. The message names one
  filename, but the script takes any number of them: with filenames it never writes the
  usage line, and when they all convert it loads and exports every one of them in order.
\<close>

theorem C9_usage_message:
  "(drop 1 argv = [] \<longrightarrow>
      stderr_of (trace (fst (script lib argv fs))) =
        [''Usage: dbn_to_parquet.py <filename>'' @ [CHR 0x0A]]) \<and>
   (drop 1 argv \<noteq> [] \<longrightarrow>
      ''Usage: dbn_to_parquet.py <filename>'' @ [CHR 0x0A]
        \<notin> set (stderr_of (trace (fst (script lib argv fs))))) \<and>
   (drop 1 argv \<noteq> [] \<and> converted lib fs (drop 1 argv) = drop 1 argv \<longrightarrow>
      loads_of (trace (fst (script lib argv fs))) = drop 1 argv \<and>
      exports_of (trace (fst (script lib argv fs))) = map (\<lambda>f. f @ ''.parquet'') (drop 1 argv) \<and>
      snd (script lib argv fs) = Returned)"
proof (intro conjI impI)
  assume "drop 1 argv = []"
  then show "stderr_of (trace (fst (script lib argv fs))) =
        [''Usage: dbn_to_parquet.py <filename>'' @ [CHR 0x0A]]"
    by (simp add: script_usage)
next
  assume ne: "drop 1 argv \<noteq> []"
  show "''Usage: dbn_to_parquet.py <filename>'' @ [CHR 0x0A]
        \<notin> set (stderr_of (trace (fst (script lib argv fs))))"
  proof
    assume "''Usage: dbn_to_parquet.py <filename>'' @ [CHR 0x0A]
        \<in> set (stderr_of (trace (fst (script lib argv fs))))"
    from script_stderr_progress [OF ne this] show False by simp
  qed
next
  assume h: "drop 1 argv \<noteq> [] \<and> converted lib fs (drop 1 argv) = drop 1 argv"
  then have run: "script lib argv fs =
     (\<lparr>files = fs_after lib fs (drop 1 argv), trace = concat (map steps (drop 1 argv))\<rparr>, Returned)"
    using script_all by blast
  show "loads_of (trace (fst (script lib argv fs))) = drop 1 argv"
    by (simp add: run loads_of_steps)
  show "exports_of (trace (fst (script lib argv fs))) = map (\<lambda>f. f @ ''.parquet'') (drop 1 argv)"
    by (simp add: run exports_of_steps)
  show "snd (script lib argv fs) = Returned"
    by (simp add: run)
qed

theorem C9_usage_message_witness:
  "drop 1 [''dbn_to_parquet.py''] = [] \<and>
   stderr_of (trace (fst (script example_lib [''dbn_to_parquet.py''] example_fs))) =
     [''Usage: dbn_to_parquet.py <filename>'' @ [CHR 0x0A]] \<and>
   drop 1 [''dbn_to_parquet.py'', ''a.bin'', ''b.bin''] \<noteq> [] \<and>
   converted example_lib example_fs (drop 1 [''dbn_to_parquet.py'', ''a.bin'', ''b.bin''])
     = drop 1 [''dbn_to_parquet.py'', ''a.bin'', ''b.bin''] \<and>
   loads_of (trace (fst (script example_lib [''dbn_to_parquet.py'', ''a.bin'', ''b.bin''] example_fs)))
     = [''a.bin'', ''b.bin''] \<and>
   ''Usage: dbn_to_parquet.py <filename>'' @ [CHR 0x0A]
     \<notin> set (stderr_of (trace (fst (script example_lib [''dbn_to_parquet.py'', ''a.bin'', ''b.bin''] example_fs))))"
  using C9_usage_message [of "[''dbn_to_parquet.py'']" example_lib example_fs]
    C9_usage_message [of "[''dbn_to_parquet.py'', ''a.bin'', ''b.bin'']" example_lib example_fs]
    ex_ab
  by (simp del: converted.simps)




end
